theory Spec2Isabelle
  imports Main "HOL-Library.Sublist" "HOL-Library.Multiset"
begin

section \<open>Strings, dictionaries and the errors of the host language\<close>

text \<open>
  A Python \<open>str\<close> is a sequence of Unicode code points, and \<open>len\<close>, indexing and
  \<open>replace\<close> count code points. A code point is modelled as a natural number and a
  string as a list of them; the literals of the source are written by their code points
  (\<open>0x0B95\<close> is TAMIL LETTER KA, \<open>0x61\<close> is the letter a).
\<close>

type_synonym codepoint = nat
type_synonym ustring = "codepoint list"

text \<open>
  The source has no \<open>raise\<close> of its own; what can fail in it is an index out of range
  (\<open>text[i]\<close>) and a missing dictionary key (\<open>d[k]\<close>). Both are values of the model.
\<close>

datatype py_error = IndexError | KeyError

definition str_index :: "ustring \<Rightarrow> nat \<Rightarrow> py_error + codepoint" where
  "str_index text i = (if i < length text then Inr (text ! i) else Inl IndexError)"

definition dict_contains :: "('k \<rightharpoonup> 'v) \<Rightarrow> 'k \<Rightarrow> bool" where
  "dict_contains d k = (d k \<noteq> None)"

definition dict_getitem :: "('k \<rightharpoonup> 'v) \<Rightarrow> 'k \<Rightarrow> py_error + 'v" where
  "dict_getitem d k = (case d k of Some v \<Rightarrow> Inr v | None \<Rightarrow> Inl KeyError)"

section \<open>Transliteration data\<close>

definition TAMIL_INDEPENDENT_VOWELS :: "codepoint \<rightharpoonup> ustring" where
  "TAMIL_INDEPENDENT_VOWELS = map_of
     [(0x0B85, [0x61]), (0x0B86, [0x0101]), (0x0B87, [0x69]), (0x0B88, [0x012B]),
      (0x0B89, [0x75]), (0x0B8A, [0x016B]), (0x0B8E, [0x65]), (0x0B8F, [0x0113]),
      (0x0B90, [0x61, 0x69]), (0x0B92, [0x6F]), (0x0B93, [0x014D]), (0x0B94, [0x61, 0x75])]"

definition TAMIL_VOWEL_SIGNS :: "codepoint \<rightharpoonup> ustring" where
  "TAMIL_VOWEL_SIGNS = map_of
     [(0x0BBE, [0x0101]), (0x0BBF, [0x69]), (0x0BC0, [0x012B]), (0x0BC1, [0x75]),
      (0x0BC2, [0x016B]), (0x0BC6, [0x65]), (0x0BC7, [0x0113]), (0x0BC8, [0x61, 0x69]),
      (0x0BCA, [0x6F]), (0x0BCB, [0x014D]), (0x0BCC, [0x61, 0x75])]"

definition TAMIL_VIRAMA :: codepoint where
  "TAMIL_VIRAMA = 0x0BCD"

definition TAMIL_ANUSVARA :: codepoint where
  "TAMIL_ANUSVARA = 0x0B82"

definition TAMIL_AAYTHAM :: codepoint where
  "TAMIL_AAYTHAM = 0x0B83"

definition PUNCT_MAP :: "codepoint \<rightharpoonup> ustring" where
  "PUNCT_MAP = map_of [(0x0964, [0x2E]), (0x0965, [0x2E]), (0x200C, []), (0x200D, [])]"

definition TAMIL_CONSONANTS_CORE :: "(codepoint \<times> ustring) list" where
  "TAMIL_CONSONANTS_CORE =
     [(0x0B95, [0x6B]), (0x0B99, [0x1E45]), (0x0B9A, [0x63]), (0x0B9E, [0xF1]),
      (0x0B9F, [0x1E6D]), (0x0BA3, [0x1E47]), (0x0BA4, [0x74]), (0x0BA8, [0x6E]),
      (0x0BA9, [0x1E49]), (0x0BAA, [0x70]), (0x0BAE, [0x6D]), (0x0BAF, [0x79]),
      (0x0BB0, [0x72]), (0x0BB1, [0x1E5F]), (0x0BB2, [0x6C]), (0x0BB3, [0x1E37]),
      (0x0BB4, [0x1E3B]), (0x0BB5, [0x76])]"

text \<open>
  \<open>build_consonant_map\<close> copies the core table and then stores five more keys, with
  the values of the chosen mode: U+0B9C JA, U+0BB7 SSA, U+0BB8 SA, U+0BB9 HA, U+0BB6 SHA.
\<close>

definition build_consonant_map :: "bool \<Rightarrow> (codepoint \<rightharpoonup> ustring)" where
  "build_consonant_map use_sanskrit =
     (let cmap = map_of TAMIL_CONSONANTS_CORE in
      if use_sanskrit
      then cmap(0x0B9C \<mapsto> [0x6A], 0x0BB7 \<mapsto> [0x1E63], 0x0BB8 \<mapsto> [0x73],
                0x0BB9 \<mapsto> [0x68], 0x0BB6 \<mapsto> [0x015B])
      else cmap(0x0B9C \<mapsto> [0x6A], 0x0BB7 \<mapsto> [0x73, 0x68], 0x0BB8 \<mapsto> [0x73],
                0x0BB9 \<mapsto> [0x68], 0x0BB6 \<mapsto> [0x73]))"

section \<open>The script composer\<close>

text \<open>
  The \<open>while\<close> loop of \<open>tamil_to_diacritic_roman\<close>, with the index \<open>i\<close> and the list
  \<open>out\<close> of emitted pieces as its state. \<open>nxt\<close> is \<open>None\<close> where the source takes the
  empty string, which equals no virama and is the key of no table.
\<close>

function tamil_loop ::
  "(codepoint \<rightharpoonup> ustring) \<Rightarrow> ustring \<Rightarrow> nat \<Rightarrow> ustring list \<Rightarrow> py_error + ustring list"
where
  "tamil_loop cmap text i out =
     (if i < length text then
        (case str_index text i of
           Inl e \<Rightarrow> Inl e
         | Inr ch \<Rightarrow>
             if dict_contains PUNCT_MAP ch then
               (case dict_getitem PUNCT_MAP ch of
                  Inl e \<Rightarrow> Inl e
                | Inr v \<Rightarrow> tamil_loop cmap text (i + 1) (out @ [v]))
             else if ch = TAMIL_ANUSVARA then tamil_loop cmap text (i + 1) (out @ [[0x1E43]])
             else if ch = TAMIL_AAYTHAM then tamil_loop cmap text (i + 1) (out @ [[0x1E25]])
             else if dict_contains TAMIL_INDEPENDENT_VOWELS ch then
               (case dict_getitem TAMIL_INDEPENDENT_VOWELS ch of
                  Inl e \<Rightarrow> Inl e
                | Inr v \<Rightarrow> tamil_loop cmap text (i + 1) (out @ [v]))
             else if dict_contains cmap ch then
               (case dict_getitem cmap ch of
                  Inl e \<Rightarrow> Inl e
                | Inr base \<Rightarrow>
                    (case (if i + 1 < length text
                           then map_sum id Some (str_index text (i + 1))
                           else Inr None) of
                       Inl e \<Rightarrow> Inl e
                     | Inr nxt \<Rightarrow>
                         if nxt = Some TAMIL_VIRAMA
                         then tamil_loop cmap text (i + 2) (out @ [base])
                         else
                           (case nxt of
                              None \<Rightarrow> tamil_loop cmap text (i + 1) (out @ [base @ [0x61]])
                            | Some c \<Rightarrow>
                                if dict_contains TAMIL_VOWEL_SIGNS c then
                                  (case dict_getitem TAMIL_VOWEL_SIGNS c of
                                     Inl e \<Rightarrow> Inl e
                                   | Inr v \<Rightarrow> tamil_loop cmap text (i + 2) (out @ [base @ v]))
                                else tamil_loop cmap text (i + 1) (out @ [base @ [0x61]]))))
             else tamil_loop cmap text (i + 1) (out @ [[ch]]))
      else Inr out)"
  by pat_completeness auto
termination
  by (relation "measure (\<lambda>(cmap, text, i, out). length text - i)") auto

declare tamil_loop.simps [simp del]

definition tamil_to_diacritic_roman :: "ustring \<Rightarrow> bool \<Rightarrow> py_error + ustring" where
  "tamil_to_diacritic_roman text use_sanskrit =
     (case tamil_loop (build_consonant_map use_sanskrit) text 0 [] of
        Inl e \<Rightarrow> Inl e
      | Inr out \<Rightarrow> Inr (concat out))"

text \<open>
  Two auxiliary functions for reasoning about the loop: \<open>piece\<close> is what one iteration
  emits at a code point with a given lookahead, and whether it consumed the lookahead;
  \<open>scan\<close> chains the pieces along the text. They are not part of the program:
  \<open>tamil_to_diacritic_roman_scan\<close> below proves that the loop computes \<open>scan\<close>.
\<close>

definition piece ::
  "(codepoint \<rightharpoonup> ustring) \<Rightarrow> codepoint \<Rightarrow> codepoint option \<Rightarrow> ustring \<times> bool"
where
  "piece cmap ch nxt =
     (case PUNCT_MAP ch of
        Some v \<Rightarrow> (v, False)
      | None \<Rightarrow>
          if ch = TAMIL_ANUSVARA then ([0x1E43], False)
          else if ch = TAMIL_AAYTHAM then ([0x1E25], False)
          else
            (case TAMIL_INDEPENDENT_VOWELS ch of
               Some v \<Rightarrow> (v, False)
             | None \<Rightarrow>
                 (case cmap ch of
                    None \<Rightarrow> ([ch], False)
                  | Some base \<Rightarrow>
                      (case nxt of
                         None \<Rightarrow> (base @ [0x61], False)
                       | Some c \<Rightarrow>
                           if c = TAMIL_VIRAMA then (base, True)
                           else
                             (case TAMIL_VOWEL_SIGNS c of
                                Some v \<Rightarrow> (base @ v, True)
                              | None \<Rightarrow> (base @ [0x61], False))))))"

fun scan :: "(codepoint \<rightharpoonup> ustring) \<Rightarrow> ustring \<Rightarrow> ustring" where
  "scan cmap [] = []"
| "scan cmap [ch] = fst (piece cmap ch None)"
| "scan cmap (ch # nxt # rest) =
     fst (piece cmap ch (Some nxt)) @
     (if snd (piece cmap ch (Some nxt)) then scan cmap rest else scan cmap (nxt # rest))"

section \<open>The pattern substitution engine\<close>

text \<open>
  \<open>str.replace(old, new)\<close> replaces the occurrences of \<open>old\<close> found from left to right,
  each search starting behind the previous occurrence. With an empty \<open>old\<close> it puts
  \<open>new\<close> in front of every code point and once at the end.
\<close>

function replace_nonempty :: "ustring \<Rightarrow> ustring \<Rightarrow> ustring \<Rightarrow> ustring" where
  "replace_nonempty old new [] = []"
| "replace_nonempty old new (c # cs) =
     (if old \<noteq> [] \<and> prefix old (c # cs)
      then new @ replace_nonempty old new (drop (length old) (c # cs))
      else c # replace_nonempty old new cs)"
  by pat_completeness auto
termination
  by (relation "measure (\<lambda>(old, new, s). length s)") auto

definition py_replace :: "ustring \<Rightarrow> ustring \<Rightarrow> ustring \<Rightarrow> ustring" where
  "py_replace s old new =
     (if old = [] then concat (map (\<lambda>c. new @ [c]) s) @ new
      else replace_nonempty old new s)"

text \<open>
  \<open>occurs p s\<close>: the string \<open>p\<close> stands somewhere in \<open>s\<close> (Python's \<open>p in s\<close>); it
  serves to state where \<open>replace\<close> finds nothing.
\<close>

fun occurs :: "ustring \<Rightarrow> ustring \<Rightarrow> bool" where
  "occurs p [] = (p = [])"
| "occurs p (c # cs) = (prefix p (c # cs) \<or> occurs p cs)"

text \<open>
  \<open>str.isalpha\<close>, \<open>str.upper\<close>, \<open>str.capitalize\<close> and \<open>str.strip\<close> read the Unicode
  character database of the interpreter, which is no part of the repository. The model
  takes them as a parameter: \<open>isalpha\<close> of one code point, the upper-case mapping of one
  code point (a string: it may be longer than one code point), \<open>capitalize\<close> of a string
  and \<open>isspace\<close> of one code point. \<open>str.upper\<close> maps code point by code point;
  \<open>str.strip\<close> without argument removes the white space at both ends.
\<close>

record unicode_db =
  isalpha :: "codepoint \<Rightarrow> bool"
  upper_char :: "codepoint \<Rightarrow> ustring"
  capitalize :: "ustring \<Rightarrow> ustring"
  isspace :: "codepoint \<Rightarrow> bool"

definition str_strip :: "unicode_db \<Rightarrow> ustring \<Rightarrow> ustring" where
  "str_strip U s = rev (dropWhile (isspace U) (rev (dropWhile (isspace U) s)))"

definition str_upper :: "unicode_db \<Rightarrow> ustring \<Rightarrow> ustring" where
  "str_upper U s = concat (map (upper_char U) s)"

definition upper_alpha :: "unicode_db \<Rightarrow> ustring \<Rightarrow> ustring" where
  "upper_alpha U tgt = concat (map (\<lambda>ch. if isalpha U ch then upper_char U ch else [ch]) tgt)"

text \<open>
  The guard \<open>src and src[0].isalpha()\<close>: the index is read only where \<open>src\<close> is not
  empty.
\<close>

definition alpha_initial :: "unicode_db \<Rightarrow> ustring \<Rightarrow> bool" where
  "alpha_initial U src = (case src of [] \<Rightarrow> False | c # _ \<Rightarrow> isalpha U c)"

definition replace_preserve_case :: "unicode_db \<Rightarrow> ustring \<Rightarrow> ustring \<Rightarrow> ustring \<Rightarrow> ustring" where
  "replace_preserve_case U s src tgt =
     (let out = py_replace s src tgt in
      if alpha_initial U src then
        (let out = py_replace out (capitalize U src) (capitalize U tgt) in
         py_replace out (str_upper U src) (upper_alpha U tgt))
      else out)"

definition ROMAN_MAPPINGS :: "(ustring \<times> ustring) list" where
  "ROMAN_MAPPINGS =
     [([0x61, 0x61], [0x0101]), ([0x69, 0x69], [0x012B]), ([0x75, 0x75], [0x016B]),
      ([0x65, 0x65], [0x0113]), ([0x6F, 0x6F], [0x014D]),
      ([0x7A, 0x68], [0x1E3B]), ([0x6E, 0x67], [0x1E45]), ([0x6E, 0x2E], [0x1E47]),
      ([0x74, 0x2E], [0x1E6D]), ([0x6C, 0x2E], [0x1E37]),
      ([0x72, 0x2E], [0x1E5B]), ([0x6D, 0x2E], [0x1E43]), ([0x73, 0x68], [0x015B]),
      ([0x63, 0x68], [0x63, 0x68])]"

text \<open>
  \<open>sorted(rules, key=lambda x: -len(x[0]))\<close>: a stable sort on the negated pattern
  length. \<open>sort_key\<close> is the stable insertion sort of the library.
\<close>

definition sorted_rules :: "(ustring \<times> ustring) list \<Rightarrow> (ustring \<times> ustring) list" where
  "sorted_rules rules = sort_key (\<lambda>x. - int (length (fst x))) rules"

text \<open>
  \<open>substitute\<close> is the loop of \<open>apply_roman_mappings\<close> with the rule table as an
  argument; the source runs it on \<open>ROMAN_MAPPINGS\<close> only.
\<close>

definition substitute :: "unicode_db \<Rightarrow> ustring \<Rightarrow> (ustring \<times> ustring) list \<Rightarrow> ustring" where
  "substitute U text rules =
     foldl (\<lambda>out (src, tgt). replace_preserve_case U out src tgt) text (sorted_rules rules)"

definition apply_roman_mappings :: "unicode_db \<Rightarrow> ustring \<Rightarrow> ustring" where
  "apply_roman_mappings U text = substitute U text ROMAN_MAPPINGS"

definition apply_custom_mappings :: "ustring \<Rightarrow> (ustring \<times> ustring) list \<Rightarrow> ustring" where
  "apply_custom_mappings text rules =
     foldl (\<lambda>out (s, t). py_replace out s t) text (sorted_rules rules)"

section \<open>Conversion\<close>

text \<open>
  \<open>conversion_steps\<close> is the computation of \<open>converted\<close> inside the \<open>try\<close> block of
  \<open>convert_now\<close>: the conversion of the chosen input mode, then the custom rules where
  the list is not empty.
\<close>

datatype input_mode = Tamil | Roman

definition conversion_steps ::
  "unicode_db \<Rightarrow> ustring \<Rightarrow> input_mode \<Rightarrow> bool \<Rightarrow> (ustring \<times> ustring) list \<Rightarrow> py_error + ustring"
where
  "conversion_steps U src mode use_sanskrit custom_rules =
     (case (if mode = Roman then Inr (apply_roman_mappings U src)
            else tamil_to_diacritic_roman src use_sanskrit) of
        Inl e \<Rightarrow> Inl e
      | Inr converted \<Rightarrow>
          if custom_rules \<noteq> [] then Inr (apply_custom_mappings converted custom_rules)
          else Inr converted)"

text \<open>
  \<open>convert_now\<close> is the method as a whole, on what it reads from the window (the content
  of the input box, the input mode, the Sanskrit flag, the custom rules) and on the
  content of the output box, which it returns together with what it reports. It strips
  the input and returns at once, with the status \<open>No input\<close> and the output box
  untouched, when nothing is left. An exception of the conversion is caught and shown;
  the output box is then untouched as well. The line written to the debug log is left
  out.
\<close>

datatype report = No_input | Conversion_finished | Conversion_error py_error

definition convert_now ::
  "unicode_db \<Rightarrow> ustring \<Rightarrow> input_mode \<Rightarrow> bool \<Rightarrow> (ustring \<times> ustring) list \<Rightarrow> ustring
     \<Rightarrow> ustring \<times> report"
where
  "convert_now U input_box mode use_sanskrit custom_rules output_box =
     (let src = str_strip U input_box in
      if src = [] then (output_box, No_input)
      else
        (case conversion_steps U src mode use_sanskrit custom_rules of
           Inl e \<Rightarrow> (output_box, Conversion_error e)
         | Inr converted \<Rightarrow> (converted, Conversion_finished)))"

section \<open>Properties of rules and of the character database\<close>

text \<open>
  The rule lists of the data model: every pattern is a non-empty string.
\<close>

definition wf_rules :: "(ustring \<times> ustring) list \<Rightarrow> bool" where
  "wf_rules rules = list_all (\<lambda>r. fst r \<noteq> []) rules"

text \<open>
  A fact of the Unicode case mappings that the model's parameter has to share where a
  theorem needs it: no case mapping erases a character.
\<close>

definition case_maps_nonempty :: "unicode_db \<Rightarrow> bool" where
  "case_maps_nonempty U =
     ((\<forall>c. upper_char U c \<noteq> []) \<and> (\<forall>s. s \<noteq> [] \<longrightarrow> capitalize U s \<noteq> []))"


section \<open>A character database for concrete runs\<close>

text \<open>
  \<open>latin_db\<close> is the interpreter's database on the Basic Latin block and on the letters
  with diacritics that occur in the tables of the program (each as a pair of its lower
  and its upper case form). It serves to run the model at concrete inputs made of these
  characters; no other code point is a letter or white space for it.
\<close>

definition diacritic_pairs :: "(codepoint \<times> codepoint) list" where
  "diacritic_pairs =
     [(0x0101, 0x0100), (0x012B, 0x012A), (0x016B, 0x016A), (0x0113, 0x0112),
      (0x014D, 0x014C), (0x1E45, 0x1E44), (0xF1, 0xD1), (0x1E6D, 0x1E6C),
      (0x1E47, 0x1E46), (0x1E49, 0x1E48), (0x1E5F, 0x1E5E), (0x1E37, 0x1E36),
      (0x1E3B, 0x1E3A), (0x1E43, 0x1E42), (0x1E25, 0x1E24), (0x1E63, 0x1E62),
      (0x015B, 0x015A), (0x1E5B, 0x1E5A)]"

definition latin_isalpha :: "codepoint \<Rightarrow> bool" where
  "latin_isalpha c =
     ((0x41 \<le> c \<and> c \<le> 0x5A) \<or> (0x61 \<le> c \<and> c \<le> 0x7A) \<or>
      list_ex (\<lambda>(l, u). c = l \<or> c = u) diacritic_pairs)"

definition latin_upper :: "codepoint \<Rightarrow> codepoint" where
  "latin_upper c =
     (if 0x61 \<le> c \<and> c \<le> 0x7A then c - 0x20
      else case map_of diacritic_pairs c of Some u \<Rightarrow> u | None \<Rightarrow> c)"

definition latin_lower :: "codepoint \<Rightarrow> codepoint" where
  "latin_lower c =
     (if 0x41 \<le> c \<and> c \<le> 0x5A then c + 0x20
      else case map_of (map (\<lambda>(l, u). (u, l)) diacritic_pairs) c of Some l \<Rightarrow> l | None \<Rightarrow> c)"

definition latin_capitalize :: "ustring \<Rightarrow> ustring" where
  "latin_capitalize s = (case s of [] \<Rightarrow> [] | c # cs \<Rightarrow> latin_upper c # map latin_lower cs)"

definition latin_isspace :: "codepoint \<Rightarrow> bool" where
  "latin_isspace c = ((0x09 \<le> c \<and> c \<le> 0x0D) \<or> (0x1C \<le> c \<and> c \<le> 0x20))"

definition latin_db :: unicode_db where
  "latin_db = \<lparr>isalpha = latin_isalpha, upper_char = (\<lambda>c. [latin_upper c]),
               capitalize = latin_capitalize, isspace = latin_isspace\<rparr>"

section \<open>The loop of the composer computes the scan\<close>

lemma tamil_loop_step:
  assumes "i < length text"
  shows "tamil_loop cmap text i out =
     (let nxt = (if i + 1 < length text then Some (text ! (i + 1)) else None);
          p = piece cmap (text ! i) nxt
      in tamil_loop cmap text (if snd p then i + 2 else i + 1) (out @ [fst p]))"
proof (cases "PUNCT_MAP (text ! i)")
  case (Some v)
  with assms show ?thesis
    by (subst tamil_loop.simps)
       (simp add: str_index_def dict_contains_def dict_getitem_def piece_def)
next
  case np: None
  show ?thesis
  proof (cases "TAMIL_INDEPENDENT_VOWELS (text ! i)")
    case (Some v)
    with assms np show ?thesis
      by (subst tamil_loop.simps)
         (simp add: str_index_def dict_contains_def dict_getitem_def piece_def)
  next
    case nv: None
    show ?thesis
    proof (cases "cmap (text ! i)")
      case None
      with assms np nv show ?thesis
        by (subst tamil_loop.simps)
           (simp add: str_index_def dict_contains_def dict_getitem_def piece_def)
    next
      case (Some base)
      show ?thesis
      proof (cases "i + 1 < length text")
        case False
        with assms np nv Some show ?thesis
          by (subst tamil_loop.simps)
             (simp add: str_index_def dict_contains_def dict_getitem_def piece_def)
      next
        case True
        with assms np nv Some show ?thesis
          by (subst tamil_loop.simps, cases "TAMIL_VOWEL_SIGNS (text ! (i + 1))")
             (simp_all add: str_index_def dict_contains_def dict_getitem_def piece_def)
      qed
    qed
  qed
qed

lemma tamil_loop_done: "\<not> i < length text \<Longrightarrow> tamil_loop cmap text i out = Inr out"
  by (subst tamil_loop.simps) simp


lemma piece_None_snd: "snd (piece cmap ch None) = False"
  by (simp add: piece_def split: option.splits)

lemma tamil_loop_scan:
  "\<exists>out'. tamil_loop cmap text i out = Inr out' \<and>
      concat out' = concat out @ scan cmap (drop i text)"
proof (induction "length text - i" arbitrary: i out rule: less_induct)
  case less
  show ?case
  proof (cases "i < length text")
    case False
    then show ?thesis by (simp add: tamil_loop_done)
  next
    case inside: True
    show ?thesis
    proof (cases "i + 1 < length text")
      case False
      with inside have last: "drop i text = [text ! i]"
        using Cons_nth_drop_Suc [OF inside, symmetric] by simp
      from False inside show ?thesis
        by (simp add: tamil_loop_step [OF inside] piece_None_snd tamil_loop_done last)
    next
      case two: True
      define p where "p = piece cmap (text ! i) (Some (text ! (i + 1)))"
      have two': "Suc i < length text" using two by simp
      have d1: "drop (Suc i) text = text ! (Suc i) # drop (Suc (Suc i)) text"
        by (rule Cons_nth_drop_Suc [OF two', symmetric])
      have d0: "drop i text = text ! i # text ! (Suc i) # drop (Suc (Suc i)) text"
        using Cons_nth_drop_Suc [OF inside, symmetric] d1 by simp
      have sc: "scan cmap (drop i text) =
          fst p @ (if snd p then scan cmap (drop (i + 2) text) else scan cmap (drop (i + 1) text))"
        by (simp add: d0 d1 p_def)
      have step: "tamil_loop cmap text i out =
          tamil_loop cmap text (if snd p then i + 2 else i + 1) (out @ [fst p])"
        using two by (simp add: tamil_loop_step [OF inside] p_def Let_def)
      show ?thesis
      proof (cases "snd p")
        case True
        have "length text - (i + 2) < length text - i" using inside by simp
        from less [OF this, of "out @ [fst p]"] True show ?thesis
          by (simp add: step sc)
      next
        case False
        have "length text - (i + 1) < length text - i" using inside by simp
        from less [OF this, of "out @ [fst p]"] False show ?thesis
          by (simp add: step sc)
      qed
    qed
  qed
qed

lemma tamil_to_diacritic_roman_scan:
  "tamil_to_diacritic_roman text use_sanskrit = Inr (scan (build_consonant_map use_sanskrit) text)"
proof -
  obtain out' where "tamil_loop (build_consonant_map use_sanskrit) text 0 [] = Inr out'"
    and "concat out' = scan (build_consonant_map use_sanskrit) text"
    using tamil_loop_scan [of "build_consonant_map use_sanskrit" "text" 0 "[]"] by auto
  then show ?thesis by (simp add: tamil_to_diacritic_roman_def)
qed


subsection \<open>The tables\<close>

lemmas table_defs =
  PUNCT_MAP_def TAMIL_ANUSVARA_def TAMIL_AAYTHAM_def TAMIL_INDEPENDENT_VOWELS_def
  TAMIL_VIRAMA_def TAMIL_VOWEL_SIGNS_def

lemma dom_consonant_map:
  "dom (build_consonant_map m) =
     {0x0BB6, 0x0BB9, 0x0BB8, 0x0BB7, 0x0B9C,
      0x0B95, 0x0B99, 0x0B9A, 0x0B9E, 0x0B9F, 0x0BA3, 0x0BA4, 0x0BA8, 0x0BA9, 0x0BAA,
      0x0BAE, 0x0BAF, 0x0BB0, 0x0BB1, 0x0BB2, 0x0BB3, 0x0BB4, 0x0BB5}"
  by (cases m) (simp_all add: build_consonant_map_def TAMIL_CONSONANTS_CORE_def dom_map_of_conv_image_fst
      del: fun_upd_apply)

lemma consonant_key:
  assumes "build_consonant_map m c = Some b"
  shows "c \<in> {0x0BB6, 0x0BB9, 0x0BB8, 0x0BB7, 0x0B9C,
      0x0B95, 0x0B99, 0x0B9A, 0x0B9E, 0x0B9F, 0x0BA3, 0x0BA4, 0x0BA8, 0x0BA9, 0x0BAA,
      0x0BAE, 0x0BAF, 0x0BB0, 0x0BB1, 0x0BB2, 0x0BB3, 0x0BB4, 0x0BB5}"
  using domI [of "build_consonant_map m" c b, OF assms] unfolding dom_consonant_map .

lemma consonant_keys_only:
  "\<forall>c \<in> {0x0BB6, 0x0BB9, 0x0BB8, 0x0BB7, 0x0B9C,
      0x0B95, 0x0B99, 0x0B9A, 0x0B9E, 0x0B9F, 0x0BA3, 0x0BA4, 0x0BA8, 0x0BA9, 0x0BAA,
      0x0BAE, 0x0BAF, 0x0BB0, 0x0BB1, 0x0BB2, 0x0BB3, 0x0BB4, 0x0BB5}.
     PUNCT_MAP c = None \<and> c \<noteq> TAMIL_ANUSVARA \<and> c \<noteq> TAMIL_AAYTHAM \<and>
     TAMIL_INDEPENDENT_VOWELS c = None \<and> c \<noteq> TAMIL_VIRAMA \<and> TAMIL_VOWEL_SIGNS c = None"
  by (simp add: table_defs)

lemma consonant_only:
  assumes "build_consonant_map m c = Some b"
  shows "PUNCT_MAP c = None" and "c \<noteq> TAMIL_ANUSVARA" and "c \<noteq> TAMIL_AAYTHAM"
    and "TAMIL_INDEPENDENT_VOWELS c = None" and "c \<noteq> TAMIL_VIRAMA"
    and "TAMIL_VOWEL_SIGNS c = None"
  using bspec [OF consonant_keys_only consonant_key [OF assms]] by blast+

lemma piece_consonant:
  assumes "build_consonant_map m c = Some b"
  shows "piece (build_consonant_map m) c nxt =
     (case nxt of
        None \<Rightarrow> (b @ [0x61], False)
      | Some d \<Rightarrow>
          if d = TAMIL_VIRAMA then (b, True)
          else (case TAMIL_VOWEL_SIGNS d of
                  Some v \<Rightarrow> (b @ v, True)
                | None \<Rightarrow> (b @ [0x61], False)))"
  using assms consonant_only(1-4) [OF assms] by (simp add: piece_def)

lemma virama_no_sign: "TAMIL_VOWEL_SIGNS TAMIL_VIRAMA = None"
  by (simp add: table_defs)

text \<open>
  Claim C1. For every consonant \<open>c\<close> with base romanization \<open>b\<close> in the consonant map
  of the mode: the one-code-point text \<open>c\<close> is composed to \<open>b\<close> followed by the
  letter a; \<open>c\<close> followed by the virama is composed to \<open>b\<close> alone; and \<open>c\<close> followed
  by a vowel sign with romanization \<open>v\<close> is composed to \<open>b\<close> followed by \<open>v\<close>, for
  every vowel sign of the table.
\<close>

theorem C1_consonant_syllables:
  assumes "build_consonant_map m c = Some b"
  shows "tamil_to_diacritic_roman [c] m = Inr (b @ [0x61]) \<and>
         tamil_to_diacritic_roman [c, TAMIL_VIRAMA] m = Inr b \<and>
         (\<forall>s v. TAMIL_VOWEL_SIGNS s = Some v \<longrightarrow>
                tamil_to_diacritic_roman [c, s] m = Inr (b @ v))"
proof (intro conjI allI impI)
  show "tamil_to_diacritic_roman [c] m = Inr (b @ [0x61])"
    by (simp add: tamil_to_diacritic_roman_scan piece_consonant [OF assms])
  show "tamil_to_diacritic_roman [c, TAMIL_VIRAMA] m = Inr b"
    by (simp add: tamil_to_diacritic_roman_scan piece_consonant [OF assms])
next
  fix s v
  assume sign: "TAMIL_VOWEL_SIGNS s = Some v"
  then have "s \<noteq> TAMIL_VIRAMA" using virama_no_sign by auto
  with sign show "tamil_to_diacritic_roman [c, s] m = Inr (b @ v)"
    by (simp add: tamil_to_diacritic_roman_scan piece_consonant [OF assms])
qed

theorem C1_witness:
  "build_consonant_map True 0x0B95 = Some [0x6B] \<and>
   tamil_to_diacritic_roman [0x0B95] True = Inr [0x6B, 0x61] \<and>
   tamil_to_diacritic_roman [0x0B95, TAMIL_VIRAMA] True = Inr [0x6B] \<and>
   TAMIL_VOWEL_SIGNS 0x0BBE = Some [0x0101] \<and>
   tamil_to_diacritic_roman [0x0B95, 0x0BBE] True = Inr [0x6B, 0x0101]"
proof -
  have k: "build_consonant_map True 0x0B95 = Some [0x6B]"
    by (simp add: build_consonant_map_def TAMIL_CONSONANTS_CORE_def)
  have s: "TAMIL_VOWEL_SIGNS 0x0BBE = Some [0x0101]"
    by (simp add: TAMIL_VOWEL_SIGNS_def)
  from C1_consonant_syllables [OF k] k s show ?thesis by simp
qed

section \<open>Unclassified code points and orphaned marks\<close>

lemma piece_other:
  assumes "cmap ch = None"
  shows "piece cmap ch nxt = piece cmap ch None"
  using assms by (simp add: piece_def split: option.splits)

lemma scan_Cons_other:
  assumes "cmap ch = None"
  shows "scan cmap (ch # rest) = fst (piece cmap ch None) @ scan cmap rest"
proof (cases rest)
  case Nil
  then show ?thesis by simp
next
  case (Cons nxt more)
  then show ?thesis
    using piece_other [of cmap ch "Some nxt", OF assms] piece_None_snd [of cmap ch] by simp
qed

lemma piece_unclassified:
  assumes "PUNCT_MAP ch = None" "ch \<noteq> TAMIL_ANUSVARA" "ch \<noteq> TAMIL_AAYTHAM"
    "TAMIL_INDEPENDENT_VOWELS ch = None" "cmap ch = None"
  shows "piece cmap ch nxt = ([ch], False)"
  using assms by (simp add: piece_def)

lemma scan_Cons_unclassified:
  assumes "PUNCT_MAP ch = None" "ch \<noteq> TAMIL_ANUSVARA" "ch \<noteq> TAMIL_AAYTHAM"
    "TAMIL_INDEPENDENT_VOWELS ch = None" "cmap ch = None"
  shows "scan cmap (ch # rest) = ch # scan cmap rest"
  using scan_Cons_other [of cmap ch rest, OF assms(5)] piece_unclassified [of ch cmap None, OF assms] by simp

text \<open>
  Claim C7. On a text in which no code point is classified (none is a key of the
  punctuation map, the anusvara, the aytham, an independent vowel, a consonant of the
  mode, a vowel sign or the virama), the composer is the identity. White space and the
  characters of other scripts are such code points.
\<close>

theorem C7_unclassified_identity:
  assumes "\<forall>c \<in> set text.
      PUNCT_MAP c = None \<and> c \<noteq> TAMIL_ANUSVARA \<and> c \<noteq> TAMIL_AAYTHAM \<and>
      TAMIL_INDEPENDENT_VOWELS c = None \<and> build_consonant_map m c = None \<and>
      TAMIL_VOWEL_SIGNS c = None \<and> c \<noteq> TAMIL_VIRAMA"
  shows "tamil_to_diacritic_roman text m = Inr text"
proof -
  have "scan (build_consonant_map m) text = text"
    using assms by (induction "text") (simp_all add: scan_Cons_unclassified)
  then show ?thesis by (simp add: tamil_to_diacritic_roman_scan)
qed

lemma map_of_core_None:
  "c \<notin> {0x0BB6, 0x0BB9, 0x0BB8, 0x0BB7, 0x0B9C,
      0x0B95, 0x0B99, 0x0B9A, 0x0B9E, 0x0B9F, 0x0BA3, 0x0BA4, 0x0BA8, 0x0BA9, 0x0BAA,
      0x0BAE, 0x0BAF, 0x0BB0, 0x0BB1, 0x0BB2, 0x0BB3, 0x0BB4, 0x0BB5}
   \<Longrightarrow> build_consonant_map m c = None"
  using dom_consonant_map [of m] by blast

lemma ascii_not_consonant: "c < 0x80 \<Longrightarrow> build_consonant_map m c = None"
  by (rule map_of_core_None) simp

theorem C7_witness:
  "tamil_to_diacritic_roman [0x68, 0x69, 0x20, 0x31] True = Inr [0x68, 0x69, 0x20, 0x31]"
proof -
  have "\<forall>c \<in> set [0x68, 0x69, 0x20, 0x31::nat].
      PUNCT_MAP c = None \<and> c \<noteq> TAMIL_ANUSVARA \<and> c \<noteq> TAMIL_AAYTHAM \<and>
      TAMIL_INDEPENDENT_VOWELS c = None \<and> build_consonant_map True c = None \<and>
      TAMIL_VOWEL_SIGNS c = None \<and> c \<noteq> TAMIL_VIRAMA"
    by (simp add: table_defs ascii_not_consonant)
  then show ?thesis by (rule C7_unclassified_identity)
qed

lemma mark_unclassified:
  assumes "c = TAMIL_VIRAMA \<or> TAMIL_VOWEL_SIGNS c \<noteq> None"
  shows "PUNCT_MAP c = None" and "c \<noteq> TAMIL_ANUSVARA" and "c \<noteq> TAMIL_AAYTHAM"
    and "TAMIL_INDEPENDENT_VOWELS c = None" and "build_consonant_map m c = None"
proof -
  from assms have k: "c \<in> {0x0BCD, 0x0BBE, 0x0BBF, 0x0BC0, 0x0BC1, 0x0BC2, 0x0BC6, 0x0BC7,
      0x0BC8, 0x0BCA, 0x0BCB, 0x0BCC}"
    by (auto simp add: TAMIL_VIRAMA_def TAMIL_VOWEL_SIGNS_def split: if_splits)
  have all: "\<forall>c \<in> {0x0BCD, 0x0BBE, 0x0BBF, 0x0BC0, 0x0BC1, 0x0BC2, 0x0BC6, 0x0BC7,
      0x0BC8, 0x0BCA, 0x0BCB, 0x0BCC::nat}.
      PUNCT_MAP c = None \<and> c \<noteq> TAMIL_ANUSVARA \<and> c \<noteq> TAMIL_AAYTHAM \<and>
      TAMIL_INDEPENDENT_VOWELS c = None \<and> c \<notin> dom (build_consonant_map m)"
    unfolding dom_consonant_map by (simp add: table_defs)
  from bspec [OF all k]
  show "PUNCT_MAP c = None" and "c \<noteq> TAMIL_ANUSVARA" and "c \<noteq> TAMIL_AAYTHAM"
    and "TAMIL_INDEPENDENT_VOWELS c = None" and "build_consonant_map m c = None"
    by blast+
qed

lemma scan_append:
  assumes "pre = [] \<or> cmap (last pre) = None"
  shows "scan cmap (pre @ rest) = scan cmap pre @ scan cmap rest"
  using assms
proof (induction cmap pre rule: scan.induct)
  case (1 cmap)
  show ?case by simp
next
  case (2 cmap ch)
  then have "cmap ch = None" by simp
  from scan_Cons_other [of cmap ch rest, OF this] show ?case by simp
next
  case (3 cmap ch nxt more)
  from "3.prems" have tail: "nxt # more = [] \<or> cmap (last (nxt # more)) = None" by simp
  from "3.prems" have tail2: "more = [] \<or> cmap (last more) = None"
    by (cases "more = []") simp_all
  show ?case
  proof (cases "snd (piece cmap ch (Some nxt))")
    case True
    with "3.IH"(1) tail2 show ?thesis by simp
  next
    case False
    with "3.IH"(2) tail show ?thesis by simp
  qed
qed

text \<open>
  Claim C8. A virama or a vowel sign that does not stand immediately behind a consonant
  (it is the first code point, or the code point in front of it is no consonant of the
  mode) is emitted as it is, and the scan goes on with the next code point: the output is
  the output for the text in front of it, the mark itself, and the output for the text
  behind it. No error is raised.
\<close>

theorem C8_orphan_mark_passthrough:
  assumes "c = TAMIL_VIRAMA \<or> TAMIL_VOWEL_SIGNS c \<noteq> None"
    and "pre = [] \<or> build_consonant_map m (last pre) = None"
  shows "\<exists>a b. tamil_to_diacritic_roman pre m = Inr a \<and>
               tamil_to_diacritic_roman post m = Inr b \<and>
               tamil_to_diacritic_roman (pre @ c # post) m = Inr (a @ c # b)"
proof -
  have "scan (build_consonant_map m) (c # post) = c # scan (build_consonant_map m) post"
    using mark_unclassified [OF assms(1)] by (intro scan_Cons_unclassified)
  with scan_append [of pre "build_consonant_map m" "c # post", OF assms(2)]
  show ?thesis by (simp add: tamil_to_diacritic_roman_scan)
qed


theorem C8_witness:
  "tamil_to_diacritic_roman ([0x20] @ TAMIL_VIRAMA # [0x0B95]) True =
     Inr ([0x20] @ TAMIL_VIRAMA # [0x6B, 0x61])"
proof -
  have pre: "tamil_to_diacritic_roman [0x20] True = Inr [0x20]"
    by (simp add: tamil_to_diacritic_roman_scan piece_def table_defs ascii_not_consonant)
  have post: "tamil_to_diacritic_roman [0x0B95] True = Inr [0x6B, 0x61]"
    by (simp add: tamil_to_diacritic_roman_scan piece_def table_defs build_consonant_map_def
        TAMIL_CONSONANTS_CORE_def)
  have "[0x20::nat] = [] \<or> build_consonant_map True (last [0x20]) = None"
    by (simp add: ascii_not_consonant)
  from C8_orphan_mark_passthrough [of TAMIL_VIRAMA "[0x20]" True "[0x0B95]", OF _ this]
  show ?thesis using pre post by auto
qed

section \<open>The two modes\<close>

lemma piece_cong:
  assumes "cmap ch = cmap' ch"
  shows "piece cmap ch nxt = piece cmap' ch nxt"
  by (simp only: piece_def assms)

lemma scan_cong:
  assumes "\<forall>c \<in> set text. cmap c = cmap' c"
  shows "scan cmap text = scan cmap' text"
  using assms
proof (induction cmap "text" rule: scan.induct)
  case (1 cmap)
  show ?case by simp
next
  case (2 cmap ch)
  then show ?case using piece_cong [of cmap ch cmap' None] by simp
next
  case (3 cmap ch nxt more)
  from "3.prems" have p: "piece cmap ch (Some nxt) = piece cmap' ch (Some nxt)"
    using piece_cong [of cmap ch cmap' "Some nxt"] by simp
  from "3.prems" "3.IH" show ?case by (simp add: p)
qed

lemma modes_agree:
  assumes "c \<noteq> 0x0BB7" and "c \<noteq> 0x0BB6"
  shows "build_consonant_map True c = build_consonant_map False c"
  using assms by (simp add: build_consonant_map_def)

lemma modes_differ:
  "build_consonant_map True 0x0BB7 = Some [0x1E63]"
  "build_consonant_map False 0x0BB7 = Some [0x73, 0x68]"
  "build_consonant_map True 0x0BB6 = Some [0x015B]"
  "build_consonant_map False 0x0BB6 = Some [0x73]"
  by (simp_all add: build_consonant_map_def)

lemma compose_single:
  "tamil_to_diacritic_roman [c] m = Inr (fst (piece (build_consonant_map m) c None))"
  by (simp add: tamil_to_diacritic_roman_scan)

text \<open>
  Claim C5, amended. The two consonant maps have the same keys and differ in exactly two
  entries, U+0BB7 (SSA) and U+0BB6 (SHA): a one-code-point text is composed differently
  in the two modes exactly for these two code points, and a text that contains neither
  of them is composed to the same result in both modes.
\<close>

theorem C5_mode_difference:
  "((build_consonant_map True c \<noteq> build_consonant_map False c) = (c = 0x0BB7 \<or> c = 0x0BB6)) \<and>
   ((tamil_to_diacritic_roman [c] True \<noteq> tamil_to_diacritic_roman [c] False) =
      (c = 0x0BB7 \<or> c = 0x0BB6)) \<and>
   dom (build_consonant_map True) = dom (build_consonant_map False) \<and>
   (0x0BB7 \<notin> set text \<and> 0x0BB6 \<notin> set text \<longrightarrow>
      tamil_to_diacritic_roman text True = tamil_to_diacritic_roman text False)"
proof (intro conjI impI)
  show "(build_consonant_map True c \<noteq> build_consonant_map False c) = (c = 0x0BB7 \<or> c = 0x0BB6)"
    using modes_agree [of c] modes_differ by auto
  show "(tamil_to_diacritic_roman [c] True \<noteq> tamil_to_diacritic_roman [c] False) =
      (c = 0x0BB7 \<or> c = 0x0BB6)"
  proof (cases "c = 0x0BB7 \<or> c = 0x0BB6")
    case True
    then show ?thesis
      using piece_consonant [OF modes_differ(1), of None] piece_consonant [OF modes_differ(2), of None]
        piece_consonant [OF modes_differ(3), of None] piece_consonant [OF modes_differ(4), of None]
      by (auto simp add: compose_single)
  next
    case False
    then have "build_consonant_map True c = build_consonant_map False c"
      using modes_agree [of c] by simp
    from piece_cong [of "build_consonant_map True" c "build_consonant_map False" None, OF this] False
    show ?thesis by (simp add: compose_single)
  qed
  show "dom (build_consonant_map True) = dom (build_consonant_map False)"
    by (simp only: dom_consonant_map)
next
  assume "0x0BB7 \<notin> set text \<and> 0x0BB6 \<notin> set text"
  then have "\<forall>c \<in> set text. build_consonant_map True c = build_consonant_map False c"
    using modes_agree by metis
  from scan_cong [OF this]
  show "tamil_to_diacritic_roman text True = tamil_to_diacritic_roman text False"
    by (simp add: tamil_to_diacritic_roman_scan)
qed

theorem C5_witness:
  "0x0BB7 \<notin> set [0x0B9C, 0x0BBE::nat] \<and> 0x0BB6 \<notin> set [0x0B9C, 0x0BBE::nat] \<and>
   tamil_to_diacritic_roman [0x0B9C, 0x0BBE] True = tamil_to_diacritic_roman [0x0B9C, 0x0BBE] False"
  using C5_mode_difference [of 0 "[0x0B9C, 0x0BBE]"] by simp

text \<open>
  Claim C5 as stated fails: of the five entries that \<open>build_consonant_map\<close> stores per
  mode, U+0B9C (JA), U+0BB8 (SA) and U+0BB9 (HA) get the same value in both modes, so
  these consonants are composed identically and no four entries differ.
\<close>

theorem C5_counterexample:
  "tamil_to_diacritic_roman [0x0B9C] True = Inr [0x6A, 0x61] \<and>
   tamil_to_diacritic_roman [0x0B9C] False = Inr [0x6A, 0x61] \<and>
   tamil_to_diacritic_roman [0x0BB8] True = Inr [0x73, 0x61] \<and>
   tamil_to_diacritic_roman [0x0BB8] False = Inr [0x73, 0x61] \<and>
   tamil_to_diacritic_roman [0x0BB9] True = Inr [0x68, 0x61] \<and>
   tamil_to_diacritic_roman [0x0BB9] False = Inr [0x68, 0x61]"
  by (simp add: compose_single piece_def table_defs build_consonant_map_def)

section \<open>Replacing\<close>

lemma occurs_Nil: "occurs [] s"
  by (cases s) simp_all

lemma replace_nonempty_no_occurrence:
  "\<not> occurs old s \<Longrightarrow> replace_nonempty old new s = s"
  by (induction s) simp_all

lemma py_replace_no_occurrence:
  assumes "\<not> occurs old s"
  shows "py_replace s old new = s"
proof -
  from assms have "old \<noteq> []" using occurs_Nil by auto
  with assms show ?thesis by (simp add: py_replace_def replace_nonempty_no_occurrence)
qed

lemma py_replace_Nil: "old \<noteq> [] \<Longrightarrow> py_replace [] old new = []"
  by (simp add: py_replace_def)

lemma replace_nonempty_prefix:
  assumes "old \<noteq> []"
  shows "replace_nonempty old new (old @ post) = new @ replace_nonempty old new post"
proof -
  from assms obtain c cs where old: "old = c # cs" by (cases old) auto
  have "replace_nonempty old new (c # (cs @ post)) =
      new @ replace_nonempty old new (drop (length old) (c # (cs @ post)))"
    using assms by (subst replace_nonempty.simps) (simp add: old)
  then show ?thesis by (simp add: old)
qed

lemma py_replace_prefix:
  "old \<noteq> [] \<Longrightarrow> py_replace (old @ post) old new = new @ py_replace post old new"
  by (simp add: py_replace_def replace_nonempty_prefix)

lemma py_replace_whole: "old \<noteq> [] \<Longrightarrow> py_replace old old new = new"
  using py_replace_prefix [of old "[]" new] by (simp add: py_replace_Nil)


lemma replace_preserve_case_plain:
  assumes "\<not> alpha_initial U src"
  shows "replace_preserve_case U s src tgt = py_replace s src tgt"
  using assms by (simp add: replace_preserve_case_def)

lemma sorted_rules_single: "sorted_rules [r] = [r]"
  by (simp add: sorted_rules_def)


lemma set_sorted_rules: "set (sorted_rules rules) = set rules"
  by (simp add: sorted_rules_def)

lemma foldl_agree:
  assumes "\<forall>r \<in> set rs. \<forall>out. f out r = g out r"
  shows "foldl f s rs = foldl g s rs"
  using assms by (induction rs arbitrary: s) simp_all


lemma length_interleave:
  "length (concat (map (\<lambda>c. t @ [c]) s)) = length s * (length t + 1)"
  by (induction s) simp_all

text \<open>
  Claim C10. A user rule with the empty pattern is neither rejected nor ignored: for
  every text \<open>s\<close>, the rule list with the one rule \<open>("", t)\<close> yields \<open>s\<close> with \<open>t\<close> put
  in front of every code point and once at the end; the output has
  \<open>len(s) + (len(s) + 1) * len(t)\<close> code points and differs from \<open>s\<close> when \<open>t\<close> is not
  empty.
\<close>

theorem C10_empty_pattern:
  "apply_custom_mappings s [([], t)] = concat (map (\<lambda>c. t @ [c]) s) @ t \<and>
   length (apply_custom_mappings s [([], t)]) = length s + (length s + 1) * length t \<and>
   (t \<noteq> [] \<longrightarrow> apply_custom_mappings s [([], t)] \<noteq> s)"
proof -
  have eq: "apply_custom_mappings s [([], t)] = concat (map (\<lambda>c. t @ [c]) s) @ t"
    by (simp add: apply_custom_mappings_def sorted_rules_single py_replace_def)
  have len: "length (apply_custom_mappings s [([], t)]) = length s + (length s + 1) * length t"
    by (simp add: eq length_interleave algebra_simps)
  have "apply_custom_mappings s [([], t)] \<noteq> s" if "t \<noteq> []"
  proof
    assume "apply_custom_mappings s [([], t)] = s"
    with len have "(length s + 1) * length t = 0" by simp
    with that show False by simp
  qed
  with eq len show ?thesis by blast
qed

theorem C10_witness:
  "[0x2D] \<noteq> ([]::nat list) \<and>
   apply_custom_mappings [0x61, 0x62] [([], [0x2D])] = [0x2D, 0x61, 0x2D, 0x62, 0x2D] \<and>
   apply_custom_mappings [0x61, 0x62] [([], [0x2D])] \<noteq> [0x61, 0x62]"
  using C10_empty_pattern [of "[0x61, 0x62]" "[0x2D]"] by simp

subsection \<open>Running the engine twice\<close>

lemmas latin_defs =
  latin_db_def latin_isalpha_def latin_upper_def latin_lower_def latin_capitalize_def
  diacritic_pairs_def str_upper_def upper_alpha_def alpha_initial_def

lemma custom_ba:
  "apply_custom_mappings [0x61] [([0x62], [0x63]), ([0x61], [0x62])] = [0x62]"
  "apply_custom_mappings [0x62] [([0x62], [0x63]), ([0x61], [0x62])] = [0x63]"
  by (simp_all add: apply_custom_mappings_def sorted_rules_def py_replace_def)

lemma latin_step_ba:
  "replace_preserve_case latin_db [0x61] [0x62] [0x63] = [0x61]"
  "replace_preserve_case latin_db [0x61] [0x61] [0x62] = [0x62]"
  "replace_preserve_case latin_db [0x62] [0x62] [0x63] = [0x63]"
  "replace_preserve_case latin_db [0x63] [0x61] [0x62] = [0x63]"
  by (simp_all add: replace_preserve_case_def py_replace_def latin_defs)

lemma substitute_ba:
  "substitute latin_db [0x61] [([0x62], [0x63]), ([0x61], [0x62])] = [0x62]"
  "substitute latin_db [0x62] [([0x62], [0x63]), ([0x61], [0x62])] = [0x63]"
  by (simp_all add: substitute_def sorted_rules_def latin_step_ba)

text \<open>
  Claim C9. Substitution is not idempotent: there are a rule list and a text on which a
  second run changes the output of the first, for the user pass and for the case-aware
  engine alike. In the rule list of the proof the replacement of one rule is the pattern
  of another.
\<close>

theorem C9_not_idempotent:
  "\<exists>R s. apply_custom_mappings (apply_custom_mappings s R) R \<noteq> apply_custom_mappings s R \<and>
         substitute latin_db (substitute latin_db s R) R \<noteq> substitute latin_db s R \<and>
         list_ex (\<lambda>r. list_ex (\<lambda>r'. occurs (fst r') (snd r)) R) R"
proof (intro exI conjI)
  let ?R = "[([0x62], [0x63]), ([0x61], [0x62])] :: (ustring \<times> ustring) list"
  show "apply_custom_mappings (apply_custom_mappings [0x61] ?R) ?R \<noteq> apply_custom_mappings [0x61] ?R"
    by (simp add: custom_ba)
  show "substitute latin_db (substitute latin_db [0x61] ?R) ?R \<noteq> substitute latin_db [0x61] ?R"
    by (simp add: substitute_ba)
  show "list_ex (\<lambda>r. list_ex (\<lambda>r'. occurs (fst r') (snd r)) ?R) ?R"
    by simp
qed

section \<open>The user pass and the case-aware pass\<close>

lemma foldl_fixed:
  assumes "\<forall>r \<in> set rs. f s r = s"
  shows "foldl f s rs = s"
  using assms by (induction rs) simp_all

lemma custom_as_foldl:
  "apply_custom_mappings text rules =
     foldl (\<lambda>out r. py_replace out (fst r) (snd r)) text (sorted_rules rules)"
  by (simp add: apply_custom_mappings_def case_prod_unfold)

lemma substitute_as_foldl:
  "substitute U text rules =
     foldl (\<lambda>out r. replace_preserve_case U out (fst r) (snd r)) text (sorted_rules rules)"
  by (simp add: substitute_def case_prod_unfold)

text \<open>
  Claim C2, amended. The user pass applies the rules longest pattern first, each by a
  plain \<open>str.replace\<close>: only the exact occurrences of a pattern are replaced. A text in
  which no pattern occurs exactly is returned unchanged, whatever capitalized or
  upper-case forms of the patterns it contains. The user pass gives the result of the
  case-aware engine on every rule list in which no pattern begins with an alphabetic
  character.
\<close>

theorem C2_user_pass_literal:
  "apply_custom_mappings text rules =
     foldl (\<lambda>out r. py_replace out (fst r) (snd r)) text (sorted_rules rules) \<and>
   (list_all (\<lambda>r. \<not> occurs (fst r) text) rules \<longrightarrow> apply_custom_mappings text rules = text) \<and>
   (list_all (\<lambda>r. \<not> alpha_initial U (fst r)) rules \<longrightarrow>
      apply_custom_mappings text rules = substitute U text rules)"
proof (intro conjI impI)
  show "apply_custom_mappings text rules =
     foldl (\<lambda>out r. py_replace out (fst r) (snd r)) text (sorted_rules rules)"
    by (rule custom_as_foldl)
next
  assume "list_all (\<lambda>r. \<not> occurs (fst r) text) rules"
  then have "\<forall>r \<in> set (sorted_rules rules). py_replace text (fst r) (snd r) = text"
    by (simp add: set_sorted_rules list_all_iff py_replace_no_occurrence)
  then show "apply_custom_mappings text rules = text"
    unfolding custom_as_foldl by (rule foldl_fixed)
next
  assume "list_all (\<lambda>r. \<not> alpha_initial U (fst r)) rules"
  then have "\<forall>r \<in> set (sorted_rules rules). \<forall>out.
      py_replace out (fst r) (snd r) = replace_preserve_case U out (fst r) (snd r)"
    by (simp add: set_sorted_rules list_all_iff replace_preserve_case_plain)
  then show "apply_custom_mappings text rules = substitute U text rules"
    unfolding custom_as_foldl substitute_as_foldl by (rule foldl_agree)
qed

theorem C2_witness:
  "list_all (\<lambda>r. \<not> occurs (fst r) [0x41, 0x61]) [([0x61, 0x61], [0x62::nat])] \<and>
   apply_custom_mappings [0x41, 0x61] [([0x61, 0x61], [0x62])] = [0x41, 0x61] \<and>
   list_all (\<lambda>r. \<not> alpha_initial latin_db (fst r)) [([0x2E, 0x61], [0x62::nat])] \<and>
   apply_custom_mappings [0x2E, 0x61] [([0x2E, 0x61], [0x62])] =
     substitute latin_db [0x2E, 0x61] [([0x2E, 0x61], [0x62])]"
proof -
  have a: "list_all (\<lambda>r. \<not> occurs (fst r) [0x41, 0x61]) [([0x61, 0x61], [0x62::nat])]"
    by simp
  have b: "list_all (\<lambda>r. \<not> alpha_initial latin_db (fst r)) [([0x2E, 0x61], [0x62::nat])]"
    by (simp add: latin_defs)
  from C2_user_pass_literal [of "[0x41, 0x61]" "[([0x61, 0x61], [0x62])]" latin_db]
    C2_user_pass_literal [of "[0x2E, 0x61]" "[([0x2E, 0x61], [0x62])]" latin_db] a b
  show ?thesis by blast
qed

text \<open>
  Claim C2 as stated fails: with the rule \<open>("aa", "b")\<close> the user pass leaves the text
  \<open>Aa\<close> as it is, while the case-aware engine replaces the capitalized occurrence and
  yields \<open>B\<close>.
\<close>

theorem C2_counterexample:
  "apply_custom_mappings [0x41, 0x61] [([0x61, 0x61], [0x62])] = [0x41, 0x61] \<and>
   substitute latin_db [0x41, 0x61] [([0x61, 0x61], [0x62])] = [0x42]"
  by (simp add: apply_custom_mappings_def substitute_def sorted_rules_def
      replace_preserve_case_def py_replace_def latin_defs)

text \<open>
  Claim C4, amended. The all-caps pass is run under the same guard as the capitalized
  pass: where the pattern is not empty and its first character is alphabetic,
  \<open>replace_preserve_case\<close> is the exact pass, then the capitalized pass, then the replacing
  of the upper-cased pattern by the replacement with its alphabetic characters upper-cased
  and the others kept; for every other pattern it is the exact pass alone. Under the
  guard, the upper-cased pattern as a text is replaced by the upper-cased replacement,
  provided the two earlier passes find nothing in it.
\<close>

theorem C4_all_caps_pass_guarded:
  "(alpha_initial U src \<longrightarrow>
      replace_preserve_case U s src tgt =
        py_replace (py_replace (py_replace s src tgt) (capitalize U src) (capitalize U tgt))
          (str_upper U src) (upper_alpha U tgt)) \<and>
   (\<not> alpha_initial U src \<longrightarrow> replace_preserve_case U s src tgt = py_replace s src tgt) \<and>
   (alpha_initial U src \<and> str_upper U src \<noteq> [] \<and> \<not> occurs src (str_upper U src) \<and>
    \<not> occurs (capitalize U src) (str_upper U src) \<longrightarrow>
      replace_preserve_case U (str_upper U src) src tgt = upper_alpha U tgt)"
  by (simp add: replace_preserve_case_def py_replace_no_occurrence py_replace_whole)

theorem C4_witness:
  "alpha_initial latin_db [0x61, 0x61] \<and> str_upper latin_db [0x61, 0x61] = [0x41, 0x41] \<and>
   \<not> alpha_initial latin_db [0x31, 0x61] \<and>
   replace_preserve_case latin_db [0x41, 0x41] [0x61, 0x61] [0x0101, 0x2E] = [0x0100, 0x2E] \<and>
   replace_preserve_case latin_db [0x31, 0x61] [0x31, 0x61] [0x78] = [0x78]"
proof -
  have a: "alpha_initial latin_db [0x61, 0x61]" by (simp add: latin_defs)
  have u: "str_upper latin_db [0x61, 0x61] = [0x41, 0x41]" by (simp add: latin_defs)
  have c: "capitalize latin_db [0x61, 0x61] = [0x41, 0x61]" by (simp add: latin_defs)
  have t: "upper_alpha latin_db [0x0101, 0x2E] = [0x0100, 0x2E]" by (simp add: latin_defs)
  have n: "\<not> alpha_initial latin_db [0x31, 0x61]" by (simp add: latin_defs)
  have w: "py_replace [0x31, 0x61] [0x31, 0x61] [0x78] = [0x78]"
    by (simp add: py_replace_def)
  have caps: "replace_preserve_case latin_db [0x41, 0x41] [0x61, 0x61] [0x0101, 0x2E] =
      [0x0100, 0x2E]"
    using C4_all_caps_pass_guarded [of latin_db "[0x61, 0x61]" "[]" "[0x0101, 0x2E]",
        THEN conjunct2, THEN conjunct2] a
    by (simp add: u c t)
  have plain: "replace_preserve_case latin_db [0x31, 0x61] [0x31, 0x61] [0x78] = [0x78]"
    using C4_all_caps_pass_guarded [of latin_db "[0x31, 0x61]" "[0x31, 0x61]" "[0x78]",
        THEN conjunct2, THEN conjunct1] n
    by (simp add: w)
  from a u n caps plain show ?thesis by simp
qed

text \<open>
  Claim C4 as stated fails: the pattern \<open>1a\<close> begins with a digit, its upper-case form
  is \<open>1A\<close>, and \<open>replace_preserve_case\<close> with the rule \<open>("1a", "x")\<close> leaves the text
  \<open>1A\<close> unchanged instead of yielding \<open>X\<close>.
\<close>

theorem C4_counterexample:
  "str_upper latin_db [0x31, 0x61] = [0x31, 0x41] \<and>
   upper_alpha latin_db [0x78] = [0x58] \<and>
   replace_preserve_case latin_db [0x31, 0x41] [0x31, 0x61] [0x78] = [0x31, 0x41]"
  by (simp add: replace_preserve_case_def py_replace_def latin_defs)


section \<open>The order of the rules\<close>












section \<open>The conversion is total\<close>

lemma compose_Nil: "tamil_to_diacritic_roman [] m = Inr []"
  by (simp add: tamil_to_diacritic_roman_scan)

lemma str_upper_nonempty:
  assumes "case_maps_nonempty U" and "src \<noteq> []"
  shows "str_upper U src \<noteq> []"
  using assms by (cases src) (simp_all add: str_upper_def case_maps_nonempty_def)

lemma replace_preserve_case_Nil:
  assumes "case_maps_nonempty U" and "src \<noteq> []"
  shows "replace_preserve_case U [] src tgt = []"
proof -
  from assms have "capitalize U src \<noteq> []" by (simp add: case_maps_nonempty_def)
  with assms str_upper_nonempty [OF assms] show ?thesis
    by (simp add: replace_preserve_case_def py_replace_Nil)
qed

lemma substitute_Nil:
  assumes "case_maps_nonempty U" and "wf_rules rules"
  shows "substitute U [] rules = []"
proof -
  from assms(2) have "\<forall>r \<in> set (sorted_rules rules).
      replace_preserve_case U [] (fst r) (snd r) = []"
    by (simp add: wf_rules_def list_all_iff set_sorted_rules replace_preserve_case_Nil [OF assms(1)])
  then show ?thesis unfolding substitute_as_foldl by (rule foldl_fixed)
qed

lemma custom_Nil:
  assumes "wf_rules rules"
  shows "apply_custom_mappings [] rules = []"
proof -
  from assms have "\<forall>r \<in> set (sorted_rules rules). py_replace [] (fst r) (snd r) = []"
    by (simp add: wf_rules_def list_all_iff set_sorted_rules py_replace_Nil)
  then show ?thesis unfolding custom_as_foldl by (rule foldl_fixed)
qed

lemma wf_ROMAN_MAPPINGS: "wf_rules ROMAN_MAPPINGS"
  by (simp add: wf_rules_def ROMAN_MAPPINGS_def)

lemma latin_db_nonempty: "case_maps_nonempty latin_db"
  by (simp add: case_maps_nonempty_def latin_db_def latin_capitalize_def split: list.splits)

lemma conversion_steps_total:
  "\<exists>r. conversion_steps U src mode use_sanskrit rules = Inr r"
  by (simp add: conversion_steps_def tamil_to_diacritic_roman_scan)

lemma conversion_steps_Nil:
  assumes "case_maps_nonempty U" and "wf_rules rules"
  shows "conversion_steps U [] mode use_sanskrit rules = Inr []"
proof -
  from assms have "apply_roman_mappings U [] = []"
    by (simp add: apply_roman_mappings_def substitute_Nil wf_ROMAN_MAPPINGS)
  with assms show ?thesis
    by (simp add: conversion_steps_def compose_Nil custom_Nil)
qed

lemma str_strip_Nil: "str_strip U [] = []"
  by (simp add: str_strip_def)

text \<open>
  Claim C6, amended. The conversion raises no error, for every input, mode, flag and rule
  list: the conversion steps always return a string, and \<open>convert_now\<close> never reports an
  error. The empty input is not converted: \<open>convert_now\<close> strips the input and, where
  nothing is left (the input is empty or white space only), reports \<open>No input\<close> and
  leaves the output box as it was, in both input modes; every other input is converted,
  stripped, and the result is put into the output box. The conversion steps themselves
  map the empty string to the empty string in both input modes for every rule list in
  which no pattern is empty, the case mappings of the character database erasing no
  character.
\<close>

theorem C6_convert_total:
  "(\<exists>r. conversion_steps U src mode use_sanskrit rules = Inr r) \<and>
   (\<forall>e. snd (convert_now U input_box mode use_sanskrit rules output_box) \<noteq> Conversion_error e) \<and>
   convert_now U [] mode use_sanskrit rules output_box = (output_box, No_input) \<and>
   (str_strip U input_box = [] \<longrightarrow>
      convert_now U input_box mode use_sanskrit rules output_box = (output_box, No_input)) \<and>
   (str_strip U input_box \<noteq> [] \<longrightarrow>
      (\<exists>r. conversion_steps U (str_strip U input_box) mode use_sanskrit rules = Inr r \<and>
           convert_now U input_box mode use_sanskrit rules output_box =
             (r, Conversion_finished))) \<and>
   (case_maps_nonempty U \<and> wf_rules rules \<longrightarrow>
      conversion_steps U [] mode use_sanskrit rules = Inr [])"
proof -
  obtain r where r: "conversion_steps U (str_strip U input_box) mode use_sanskrit rules = Inr r"
    using conversion_steps_total by blast
  have no_error: "\<forall>e. snd (convert_now U input_box mode use_sanskrit rules output_box) \<noteq>
      Conversion_error e"
    by (simp add: convert_now_def Let_def r)
  have empty: "convert_now U [] mode use_sanskrit rules output_box = (output_box, No_input)"
    by (simp add: convert_now_def str_strip_Nil)
  have blank: "convert_now U input_box mode use_sanskrit rules output_box =
      (output_box, No_input)" if "str_strip U input_box = []"
    using that by (simp add: convert_now_def)
  have converted: "\<exists>r. conversion_steps U (str_strip U input_box) mode use_sanskrit rules = Inr r \<and>
      convert_now U input_box mode use_sanskrit rules output_box = (r, Conversion_finished)"
    if "str_strip U input_box \<noteq> []"
    using that r by (simp add: convert_now_def Let_def)
  from conversion_steps_total no_error empty blank converted conversion_steps_Nil
  show ?thesis by blast
qed

theorem C6_witness:
  "str_strip latin_db [0x20, 0x0A] = [] \<and>
   convert_now latin_db [0x20, 0x0A] Tamil True [] [0x78] = ([0x78], No_input) \<and>
   str_strip latin_db [0x20, 0x0B95, 0x0A] \<noteq> [] \<and>
   convert_now latin_db [0x20, 0x0B95, 0x0A] Tamil True [] [0x78] =
     ([0x6B, 0x61], Conversion_finished) \<and>
   case_maps_nonempty latin_db \<and> wf_rules [([0x61], [0x62])] \<and>
   conversion_steps latin_db [] Roman True [([0x61], [0x62])] = Inr [] \<and>
   conversion_steps latin_db [] Tamil False [([0x61], [0x62])] = Inr []"
proof -
  have blank: "str_strip latin_db [0x20, 0x0A] = []"
    by (simp add: str_strip_def latin_db_def latin_isspace_def)
  have strip: "str_strip latin_db [0x20, 0x0B95, 0x0A] = [0x0B95]"
    by (simp add: str_strip_def latin_db_def latin_isspace_def)
  have ka: "conversion_steps latin_db [0x0B95] Tamil True [] = Inr [0x6B, 0x61]"
    by (simp add: conversion_steps_def tamil_to_diacritic_roman_scan piece_def table_defs
        build_consonant_map_def TAMIL_CONSONANTS_CORE_def)
  have w: "wf_rules [([0x61], [0x62])]" by (simp add: wf_rules_def)
  have a: "convert_now latin_db [0x20, 0x0A] Tamil True [] [0x78] = ([0x78], No_input)"
    using C6_convert_total [of latin_db "[]" Tamil True "[]" "[0x20, 0x0A]" "[0x78]"] blank
    by blast
  have b: "convert_now latin_db [0x20, 0x0B95, 0x0A] Tamil True [] [0x78] =
      ([0x6B, 0x61], Conversion_finished)"
    using C6_convert_total [of latin_db "[]" Tamil True "[]" "[0x20, 0x0B95, 0x0A]" "[0x78]"]
      strip ka
    by auto
  have c: "conversion_steps latin_db [] Roman True [([0x61], [0x62])] = Inr []"
    using C6_convert_total [of latin_db "[]" Roman True "[([0x61], [0x62])]" "[]" "[]"]
      latin_db_nonempty w
    by blast
  have d: "conversion_steps latin_db [] Tamil False [([0x61], [0x62])] = Inr []"
    using C6_convert_total [of latin_db "[]" Tamil False "[([0x61], [0x62])]" "[]" "[]"]
      latin_db_nonempty w
    by blast
  from blank strip a b c d latin_db_nonempty w show ?thesis by simp
qed

text \<open>
  Claim C6 as stated fails on the empty string. \<open>convert_now\<close> does not convert it: with
  \<open>x\<close> in the output box, the output box holds \<open>x\<close> afterwards, not the empty string, in
  both input modes. And the conversion steps of the \<open>try\<close> block, run on the empty
  string with the custom rule \<open>("", "x")\<close>, yield \<open>x\<close> in both input modes.
\<close>

theorem C6_counterexample:
  "convert_now latin_db [] Tamil True [] [0x78] = ([0x78], No_input) \<and>
   convert_now latin_db [] Roman True [] [0x78] = ([0x78], No_input) \<and>
   conversion_steps latin_db [] Tamil True [([], [0x78])] = Inr [0x78] \<and>
   conversion_steps latin_db [] Roman True [([], [0x78])] = Inr [0x78]"
proof -
  have "apply_roman_mappings latin_db [] = []"
    by (simp add: apply_roman_mappings_def substitute_Nil wf_ROMAN_MAPPINGS latin_db_nonempty)
  moreover have "apply_custom_mappings [] [([], [0x78])] = [0x78]"
    by (simp add: apply_custom_mappings_def sorted_rules_single py_replace_def)
  ultimately show ?thesis
    by (simp add: convert_now_def str_strip_Nil conversion_steps_def compose_Nil)
qed

end
